theory Spec2Isabelle
  imports Main "HOL-Library.Word" "HOL-Library.Sublist"
begin

section \<open>JavaScript strings and values\<close>

text \<open>
  A JavaScript string is a sequence of UTF-16 code units. The Arabic letters of the
  table are all in the Basic Multilingual Plane, one code unit each.
\<close>

type_synonym jsstring = "16 word list"

definition ascii :: "string \<Rightarrow> jsstring" where
  "ascii cs = map (\<lambda>c. of_nat (of_char c)) cs"

text \<open>
  The argument of \<open>normalizeDarija\<close> is any JavaScript value. The payload of a number
  and the contents of an object are never inspected by the code.
\<close>

datatype jsval =
    JUndefined
  | JNull
  | JBoolean bool
  | JNumber int
  | JString jsstring
  | JObject

datatype jstype = TUndefined | TObject | TBoolean | TNumber | TString

fun typeof :: "jsval \<Rightarrow> jstype" where
  "typeof JUndefined = TUndefined"
| "typeof JNull = TObject"
| "typeof (JBoolean b) = TBoolean"
| "typeof (JNumber n) = TNumber"
| "typeof (JString s) = TString"
| "typeof JObject = TObject"

fun ToBoolean :: "jsval \<Rightarrow> bool" where
  "ToBoolean JUndefined = False"
| "ToBoolean JNull = False"
| "ToBoolean (JBoolean b) = b"
| "ToBoolean (JNumber n) = (n \<noteq> 0)"
| "ToBoolean (JString s) = (s \<noteq> [])"
| "ToBoolean JObject = True"

text \<open>
  What can stop a call: \<open>TypeError\<close> is what calling \<open>toLowerCase\<close> on a value that
  is not a string raises; \<open>Unsupported\<close> marks a pattern or a replacement text that
  the regular-expression engine would not treat as literal text (a pattern with a
  syntax character either raises SyntaxError or matches something other than its own
  text; a replacement with a dollar sign is expanded).
\<close>

datatype error = TypeError | Unsupported

subsection \<open>String.prototype.toLowerCase\<close>

text \<open>
  Lower-casing maps the Basic Latin capitals to their small letters. Every other code
  unit is left as it is, which is what the runtime does for all uncased characters:
  digits, punctuation, white space and the whole of the Arabic script. Cased letters of
  other scripts are not modelled.
\<close>

definition lower_unit :: "16 word \<Rightarrow> 16 word" where
  "lower_unit c = (if 0x41 \<le> c \<and> c \<le> 0x5A then c + 0x20 else c)"

fun toLowerCase :: "jsval \<Rightarrow> error + jsstring" where
  "toLowerCase (JString s) = Inr (map lower_unit s)"
| "toLowerCase v = Inl TypeError"

subsection \<open>Regular expressions built from a key, and global replacement\<close>

definition SyntaxCharacter :: "16 word \<Rightarrow> bool" where
  "SyntaxCharacter c \<longleftrightarrow>
     c \<in> set [0x5E, 0x24, 0x5C, 0x2E, 0x2A, 0x2B, 0x3F, 0x28, 0x29, 0x5B, 0x5D, 0x7B, 0x7D, 0x7C]"

datatype regexp = Literal jsstring

text \<open>\<open>new RegExp(key, 'g')\<close>: a pattern without syntax characters matches its own text.\<close>

definition RegExp :: "jsstring \<Rightarrow> error + regexp" where
  "RegExp key = (if \<exists>c \<in> set key. SyntaxCharacter c then Inl Unsupported else Inr (Literal key))"

text \<open>
  Global replacement of a literal pattern: the subject is scanned from the left, every
  match is replaced and the scan goes on behind the match, so matches do not overlap.
  The empty pattern matches before every code unit and at the end.
\<close>

fun replaceAll :: "jsstring \<Rightarrow> jsstring \<Rightarrow> jsstring \<Rightarrow> jsstring" where
  "replaceAll [] rep s = rep @ concat (map (\<lambda>c. c # rep) s)"
| "replaceAll (k # ks) rep [] = []"
| "replaceAll (k # ks) rep (c # cs) =
     (if prefix (k # ks) (c # cs)
      then rep @ replaceAll (k # ks) rep (drop (length ks) cs)
      else c # replaceAll (k # ks) rep cs)"

fun replace :: "jsstring \<Rightarrow> regexp \<Rightarrow> jsstring \<Rightarrow> error + jsstring" where
  "replace s (Literal key) rep =
     (if 0x24 \<in> set rep then Inl Unsupported else Inr (replaceAll key rep s))"

subsection \<open>White space: the class \<open>\s\<close> and \<open>trim\<close>\<close>

definition WhiteSpace :: "16 word \<Rightarrow> bool" where
  "WhiteSpace c \<longleftrightarrow>
     c \<in> set [0x09, 0x0A, 0x0B, 0x0C, 0x0D, 0x20, 0xA0, 0x1680,
              0x2028, 0x2029, 0x202F, 0x205F, 0x3000, 0xFEFF]
     \<or> (0x2000 \<le> c \<and> c \<le> 0x200A)"

text \<open>
  \<open>replace(/\s\s+/g, ' ')\<close>: a match starts at a white-space unit that is followed by
  another one and, being greedy, takes the whole run; it is replaced by one space.
\<close>

function collapse :: "jsstring \<Rightarrow> jsstring" where
  "collapse [] = []"
| "collapse [c] = [c]"
| "collapse (c # d # cs) =
     (if WhiteSpace c \<and> WhiteSpace d
      then 0x20 # collapse (dropWhile WhiteSpace cs)
      else c # collapse (d # cs))"
  by pat_completeness auto
termination
proof (relation "measure length")
  fix c d :: "16 word" and cs :: jsstring
  have "length (dropWhile WhiteSpace cs) \<le> length cs"
    by (rule length_dropWhile_le)
  then show "(dropWhile WhiteSpace cs, c # d # cs) \<in> measure length"
    by simp
qed simp_all

definition trim :: "jsstring \<Rightarrow> jsstring" where
  "trim s = rev (dropWhile WhiteSpace (rev (dropWhile WhiteSpace s)))"

section \<open>DarijaNormalizer.js\<close>

subsection \<open>The table\<close>

text \<open>The entries in the order the object literal lists them.\<close>

definition ARABIC_CHAT_MAP :: "(jsstring \<times> jsstring) list" where
  "ARABIC_CHAT_MAP =
    [(ascii ''3'', [0x0639]),
     (ascii ''7'', [0x062D]),
     (ascii ''9'', [0x0642]),
     (ascii ''2'', [0x0621]),
     (ascii ''5'', [0x062E]),
     (ascii ''6'', [0x0637]),
     (ascii ''8'', [0x063A]),
     (ascii ''dh'', [0x0630]),
     (ascii ''d7'', [0x0638]),
     (ascii ''sh'', [0x0634]),
     (ascii ''s5'', [0x0635]),
     (ascii ''s9'', [0x0635]),
     (ascii ''d9'', [0x0636]),
     (ascii ''z7'', [0x0632])]"

text \<open>
  \<open>Object.keys\<close> lists the keys that are array indices first, in ascending numeric
  order, and then the other keys in the order of their insertion.
\<close>

definition digits_value :: "jsstring \<Rightarrow> nat" where
  "digits_value k = foldl (\<lambda>n c. 10 * n + unat (c - 0x30)) 0 k"

definition is_array_index :: "jsstring \<Rightarrow> bool" where
  "is_array_index k \<longleftrightarrow>
     k \<noteq> [] \<and> (\<forall>c \<in> set k. 0x30 \<le> c \<and> c \<le> 0x39)
     \<and> (hd k \<noteq> 0x30 \<or> length k = 1) \<and> digits_value k < 2 ^ 32 - 1"

definition Object_keys :: "(jsstring \<times> jsstring) list \<Rightarrow> jsstring list" where
  "Object_keys m =
     sort_key digits_value (filter is_array_index (map fst m))
     @ filter (\<lambda>k. \<not> is_array_index k) (map fst m)"

text \<open>\<open>ARABIC_CHAT_MAP[key]\<close>; a missing property reads as \<open>undefined\<close>, which
  \<open>replace\<close> turns into the text "undefined".\<close>

definition lookup :: "(jsstring \<times> jsstring) list \<Rightarrow> jsstring \<Rightarrow> jsstring" where
  "lookup m key = (case map_of m key of Some v \<Rightarrow> v | None \<Rightarrow> ascii ''undefined'')"

subsection \<open>normalizeDarija\<close>

text \<open>The keys longer than one unit, sorted (stably) by length, longest first.\<close>

definition multiCharKeys :: "jsstring list" where
  "multiCharKeys =
     sort_key (\<lambda>key. - int (length key))
       (filter (\<lambda>key. length key > 1) (Object_keys ARABIC_CHAT_MAP))"

definition singleCharKeys :: "jsstring list" where
  "singleCharKeys = filter (\<lambda>key. length key = 1) (Object_keys ARABIC_CHAT_MAP)"

text \<open>The body shared by the two \<open>forEach\<close> loops.\<close>

fun forEach_replace :: "jsstring list \<Rightarrow> jsstring \<Rightarrow> error + jsstring" where
  "forEach_replace [] normalizedText = Inr normalizedText"
| "forEach_replace (key # keys) normalizedText =
     (case RegExp key of
        Inl e \<Rightarrow> Inl e
      | Inr regex \<Rightarrow>
          (case replace normalizedText regex (lookup ARABIC_CHAT_MAP key) of
             Inl e \<Rightarrow> Inl e
           | Inr t \<Rightarrow> forEach_replace keys t))"

definition normalizeDarija :: "jsval \<Rightarrow> error + jsstring" where
  "normalizeDarija text =
     (if \<not> ToBoolean text \<or> typeof text \<noteq> TString then Inr []
      else
        (case toLowerCase text of
           Inl e \<Rightarrow> Inl e
         | Inr lowered \<Rightarrow>
             (case forEach_replace multiCharKeys lowered of
                Inl e \<Rightarrow> Inl e
              | Inr multiDone \<Rightarrow>
                  (case forEach_replace singleCharKeys multiDone of
                     Inl e \<Rightarrow> Inl e
                   | Inr singleDone \<Rightarrow> Inr (trim (collapse singleDone))))))"

section \<open>What the two loops and the whole function compute\<close>

text \<open>
  Auxiliary notions for the proofs: the text a \<open>forEach\<close> loop produces when no
  step stops it, the condition under which no step does, and the composition of all
  the stages on a string.
\<close>

definition substitute :: "jsstring list \<Rightarrow> jsstring \<Rightarrow> jsstring" where
  "substitute keys t = fold (\<lambda>key. replaceAll key (lookup ARABIC_CHAT_MAP key)) keys t"

definition literal_entry :: "jsstring \<Rightarrow> bool" where
  "literal_entry key \<longleftrightarrow>
     (\<forall>c \<in> set key. \<not> SyntaxCharacter c) \<and> 0x24 \<notin> set (lookup ARABIC_CHAT_MAP key)"

definition pipeline :: "jsstring \<Rightarrow> jsstring" where
  "pipeline s =
     trim (collapse (substitute singleCharKeys (substitute multiCharKeys (map lower_unit s))))"

text \<open>A string has a white-space run when two adjacent units are white space.\<close>

fun has_ws_run :: "jsstring \<Rightarrow> bool" where
  "has_ws_run (c # d # cs) \<longleftrightarrow> (WhiteSpace c \<and> WhiteSpace d) \<or> has_ws_run (d # cs)"
| "has_ws_run cs \<longleftrightarrow> False"

text \<open>
  Classes of input that the theorems below speak of. \<open>Arabic\<close> holds of the code units of the Arabic
  blocks of the Basic Multilingual Plane (Arabic, Arabic Supplement, Arabic Extended-B
  and -A, Presentation Forms-A and -B up to U+FEFC; U+FEFF, the byte-order mark, is white
  space and not a letter). Two code units are the same up to case when they are equal or
  are the capital and the small form of one Basic Latin letter.
\<close>

definition Arabic :: "16 word \<Rightarrow> bool" where
  "Arabic c \<longleftrightarrow>
     (0x0600 \<le> c \<and> c \<le> 0x06FF) \<or> (0x0750 \<le> c \<and> c \<le> 0x077F)
     \<or> (0x0870 \<le> c \<and> c \<le> 0x08FF) \<or> (0xFB50 \<le> c \<and> c \<le> 0xFDFF)
     \<or> (0xFE70 \<le> c \<and> c \<le> 0xFEFC)"



section \<open>The key lists and the unfolded pipeline\<close>

lemma substitute_Nil: "substitute [] t = t"
  by (simp add: substitute_def)

lemma substitute_Cons:
  "substitute (key # keys) t = substitute keys (replaceAll key (lookup ARABIC_CHAT_MAP key) t)"
  by (simp add: substitute_def)

lemma forEach_replace_substitute:
  "\<forall>key \<in> set keys. literal_entry key \<Longrightarrow> forEach_replace keys t = Inr (substitute keys t)"
  by (induction keys arbitrary: t) (simp_all add: substitute_Nil substitute_Cons RegExp_def literal_entry_def)

lemma keys_in_order:
  "map fst ARABIC_CHAT_MAP =
     [[0x33], [0x37], [0x39], [0x32], [0x35], [0x36], [0x38],
      [0x64, 0x68], [0x64, 0x37], [0x73, 0x68], [0x73, 0x35], [0x73, 0x39], [0x64, 0x39], [0x7A, 0x37]]"
  by (simp add: ARABIC_CHAT_MAP_def ascii_def)

lemma index_keys:
  "filter is_array_index
     [[0x33], [0x37], [0x39], [0x32], [0x35], [0x36], [0x38],
      [0x64, 0x68], [0x64, 0x37], [0x73, 0x68], [0x73, 0x35], [0x73, 0x39], [0x64, 0x39], [0x7A, 0x37]]
   = [[0x33], [0x37], [0x39], [0x32], [0x35], [0x36], [0x38]]"
  by (simp add: digits_value_def is_array_index_def)

lemma other_keys:
  "filter (\<lambda>k. \<not> is_array_index k)
     [[0x33], [0x37], [0x39], [0x32], [0x35], [0x36], [0x38],
      [0x64, 0x68], [0x64, 0x37], [0x73, 0x68], [0x73, 0x35], [0x73, 0x39], [0x64, 0x39], [0x7A, 0x37]]
   = [[0x64, 0x68], [0x64, 0x37], [0x73, 0x68], [0x73, 0x35], [0x73, 0x39], [0x64, 0x39], [0x7A, 0x37]]"
  by (simp add: digits_value_def is_array_index_def)

lemma index_keys_sorted:
  "sort_key digits_value [[0x33], [0x37], [0x39], [0x32], [0x35], [0x36], [0x38]]
   = [[0x32], [0x33], [0x35], [0x36], [0x37], [0x38], [0x39]]"
  by (simp add: digits_value_def)

lemma Object_keys_table:
  "Object_keys ARABIC_CHAT_MAP =
     [[0x32], [0x33], [0x35], [0x36], [0x37], [0x38], [0x39],
      [0x64, 0x68], [0x64, 0x37], [0x73, 0x68], [0x73, 0x35], [0x73, 0x39], [0x64, 0x39], [0x7A, 0x37]]"
  unfolding Object_keys_def keys_in_order index_keys other_keys index_keys_sorted by simp

lemma multiCharKeys_eq:
  "multiCharKeys =
     [[0x64, 0x68], [0x64, 0x37], [0x73, 0x68], [0x73, 0x35], [0x73, 0x39], [0x64, 0x39], [0x7A, 0x37]]"
  unfolding multiCharKeys_def Object_keys_table by simp

lemma singleCharKeys_eq:
  "singleCharKeys = [[0x32], [0x33], [0x35], [0x36], [0x37], [0x38], [0x39]]"
  unfolding singleCharKeys_def Object_keys_table by simp

lemma lookup_table:
  "lookup ARABIC_CHAT_MAP [0x32] = [0x0621]"
  "lookup ARABIC_CHAT_MAP [0x33] = [0x0639]"
  "lookup ARABIC_CHAT_MAP [0x35] = [0x062E]"
  "lookup ARABIC_CHAT_MAP [0x36] = [0x0637]"
  "lookup ARABIC_CHAT_MAP [0x37] = [0x062D]"
  "lookup ARABIC_CHAT_MAP [0x38] = [0x063A]"
  "lookup ARABIC_CHAT_MAP [0x39] = [0x0642]"
  "lookup ARABIC_CHAT_MAP [0x64, 0x68] = [0x0630]"
  "lookup ARABIC_CHAT_MAP [0x64, 0x37] = [0x0638]"
  "lookup ARABIC_CHAT_MAP [0x73, 0x68] = [0x0634]"
  "lookup ARABIC_CHAT_MAP [0x73, 0x35] = [0x0635]"
  "lookup ARABIC_CHAT_MAP [0x73, 0x39] = [0x0635]"
  "lookup ARABIC_CHAT_MAP [0x64, 0x39] = [0x0636]"
  "lookup ARABIC_CHAT_MAP [0x7A, 0x37] = [0x0632]"
  by (simp_all add: lookup_def ARABIC_CHAT_MAP_def ascii_def)

lemma literal_multiCharKeys: "\<forall>key \<in> set multiCharKeys. literal_entry key"
  unfolding multiCharKeys_eq by (simp add: literal_entry_def lookup_table SyntaxCharacter_def)

lemma literal_singleCharKeys: "\<forall>key \<in> set singleCharKeys. literal_entry key"
  unfolding singleCharKeys_eq by (simp add: literal_entry_def lookup_table SyntaxCharacter_def)

lemma substitute_empty: "\<forall>key \<in> set keys. key \<noteq> [] \<Longrightarrow> substitute keys [] = []"
  by (induction keys) (auto simp: substitute_Nil substitute_Cons neq_Nil_conv)

lemma pipeline_Nil: "pipeline [] = []"
  by (simp add: pipeline_def substitute_empty multiCharKeys_eq singleCharKeys_eq trim_def)

lemma normalizeDarija_JString: "normalizeDarija (JString s) = Inr (pipeline s)"
proof (cases "s = []")
  case True
  then show ?thesis
    by (simp add: normalizeDarija_def pipeline_Nil)
next
  case False
  then show ?thesis
    by (simp add: normalizeDarija_def pipeline_def forEach_replace_substitute
        literal_multiCharKeys literal_singleCharKeys)
qed

text \<open>The facts that evaluate a call on a given string.\<close>

lemmas run_normalizeDarija =
  normalizeDarija_JString pipeline_def multiCharKeys_eq singleCharKeys_eq
  substitute_Cons substitute_Nil lookup_table ascii_def lower_unit_def trim_def WhiteSpace_def

section \<open>White-space cleanup\<close>

lemma has_ws_run_Cons:
  "has_ws_run (c # t) \<longleftrightarrow> (t \<noteq> [] \<and> WhiteSpace c \<and> WhiteSpace (hd t)) \<or> has_ws_run t"
  by (cases t) auto

lemma collapse_Nil_iff: "collapse t = [] \<longleftrightarrow> t = []"
  by (induction t rule: collapse.induct) auto

lemma WhiteSpace_space: "WhiteSpace 0x20"
  by (simp add: WhiteSpace_def)

lemma WhiteSpace_hd_collapse: "t \<noteq> [] \<Longrightarrow> WhiteSpace (hd (collapse t)) \<longleftrightarrow> WhiteSpace (hd t)"
  by (induction t rule: collapse.induct) (auto simp: WhiteSpace_space)

lemma hd_dropWhile_WhiteSpace:
  "dropWhile WhiteSpace t \<noteq> [] \<Longrightarrow> \<not> WhiteSpace (hd (dropWhile WhiteSpace t))"
  by (metis hd_dropWhile)

lemma no_ws_run_collapse: "\<not> has_ws_run (collapse t)"
proof (induction t rule: collapse.induct)
  case 1
  show ?case by simp
next
  case (2 c)
  show ?case by simp
next
  case (3 c d cs)
  show ?case
  proof (cases "WhiteSpace c \<and> WhiteSpace d")
    case True
    let ?u = "dropWhile WhiteSpace cs"
    have "\<not> has_ws_run (collapse ?u)"
      using 3 True by simp
    moreover have "collapse ?u \<noteq> [] \<Longrightarrow> \<not> WhiteSpace (hd (collapse ?u))"
      using hd_dropWhile_WhiteSpace [of cs]
      by (simp add: collapse_Nil_iff WhiteSpace_hd_collapse del: dropWhile_eq_Nil_conv)
    ultimately show ?thesis
      using True by (auto simp: has_ws_run_Cons)
  next
    case False
    have eq: "collapse (c # d # cs) = c # collapse (d # cs)"
      by (simp only: collapse.simps False if_False)
    have "\<not> has_ws_run (collapse (d # cs))"
      using 3 False by simp
    moreover have "WhiteSpace (hd (collapse (d # cs))) \<longleftrightarrow> WhiteSpace d"
      by (simp add: WhiteSpace_hd_collapse)
    ultimately show ?thesis
      unfolding eq has_ws_run_Cons using False by blast
  qed
qed

lemma has_ws_run_append_left: "has_ws_run m \<Longrightarrow> has_ws_run (p @ m)"
  by (induction p) (auto simp: has_ws_run_Cons)

lemma has_ws_run_append_right: "has_ws_run m \<Longrightarrow> has_ws_run (m @ q)"
  by (induction m rule: has_ws_run.induct) auto

lemma trim_infix: "\<exists>p q. s = p @ trim s @ q"
proof -
  let ?u = "dropWhile WhiteSpace s"
  have "s = takeWhile WhiteSpace s @ ?u"
    by simp
  moreover have "?u = trim s @ rev (takeWhile WhiteSpace (rev ?u))"
    unfolding trim_def by (metis rev_append rev_rev_ident takeWhile_dropWhile_id)
  ultimately show ?thesis
    by metis
qed

lemma no_ws_run_trim: "\<not> has_ws_run s \<Longrightarrow> \<not> has_ws_run (trim s)"
  using trim_infix [of s] has_ws_run_append_left has_ws_run_append_right by metis

lemma trim_ends:
  assumes "trim s \<noteq> []"
  shows "\<not> WhiteSpace (hd (trim s))" and "\<not> WhiteSpace (last (trim s))"
proof -
  let ?u = "dropWhile WhiteSpace s"
  let ?v = "dropWhile WhiteSpace (rev ?u)"
  have v: "?v \<noteq> []"
    using assms by (simp add: trim_def)
  then have u: "?u \<noteq> []"
    by (metis dropWhile.simps(1) rev.simps(1))
  have "\<not> WhiteSpace (hd ?v)"
    using v by (metis hd_dropWhile)
  then show "\<not> WhiteSpace (last (trim s))"
    using v by (simp add: trim_def last_rev)
  have "\<not> WhiteSpace (hd ?u)"
    using u by (metis hd_dropWhile)
  moreover have "last ?v = last (rev ?u)"
  proof -
    obtain x where "x \<in> set (rev ?u)" "\<not> WhiteSpace x"
      using v by auto
    then show ?thesis
      by (rule dropWhile_last)
  qed
  ultimately show "\<not> WhiteSpace (hd (trim s))"
    using v u by (simp add: trim_def hd_rev last_rev)
qed

section \<open>Which code units a stage can remove or add\<close>

lemma set_replaceAll_subset: "set (replaceAll key rep t) \<subseteq> set t \<union> set rep"
proof (induction key rep t rule: replaceAll.induct)
  case (1 rep s)
  show ?case by auto
next
  case (2 k ks rep)
  show ?case by simp
next
  case (3 k ks rep c cs)
  have "set (drop (length ks) cs) \<subseteq> set cs"
    by (rule set_drop_subset)
  with 3 show ?case
    by (cases "prefix (k # ks) (c # cs)") auto
qed

lemma replaceAll_removes_unit: "d \<notin> set rep \<Longrightarrow> d \<notin> set (replaceAll [d] rep t)"
  by (induction t) auto

lemma absent_after_replaceAll:
  "d \<notin> set t \<Longrightarrow> d \<notin> set rep \<Longrightarrow> d \<notin> set (replaceAll key rep t)"
  using set_replaceAll_subset [of key rep t] by auto

lemma absent_after_substitute:
  "d \<notin> set t \<Longrightarrow> \<forall>key \<in> set keys. d \<notin> set (lookup ARABIC_CHAT_MAP key)
   \<Longrightarrow> d \<notin> set (substitute keys t)"
  by (induction keys arbitrary: t) (simp_all add: substitute_Nil substitute_Cons absent_after_replaceAll)

lemma removed_by_substitute:
  "[d] \<in> set keys \<Longrightarrow> \<forall>key \<in> set keys. d \<notin> set (lookup ARABIC_CHAT_MAP key)
   \<Longrightarrow> d \<notin> set (substitute keys t)"
proof (induction keys arbitrary: t)
  case Nil
  then show ?case by simp
next
  case (Cons key keys)
  show ?case
  proof (cases "key = [d]")
    case True
    have "d \<notin> set (replaceAll [d] (lookup ARABIC_CHAT_MAP [d]) t)"
      using Cons.prems True by (simp add: replaceAll_removes_unit)
    then show ?thesis
      using Cons.prems True by (simp add: substitute_Cons absent_after_substitute)
  next
    case False
    then show ?thesis
      using Cons by (simp add: substitute_Cons)
  qed
qed

lemma set_collapse_subset: "set (collapse t) \<subseteq> insert 0x20 (set t)"
proof (induction t rule: collapse.induct)
  case (3 c d cs)
  have "set (dropWhile WhiteSpace cs) \<subseteq> set cs"
    by (auto dest: set_dropWhileD)
  with 3 show ?case
    by (cases "WhiteSpace c \<and> WhiteSpace d") auto
qed simp_all

lemma set_trim_subset: "set (trim t) \<subseteq> set t"
  by (auto simp: trim_def dest!: set_dropWhileD)

lemma digit_keys:
  "d \<in> set [0x32, 0x33, 0x35, 0x36, 0x37, 0x38, 0x39] \<Longrightarrow>
     [d] \<in> set singleCharKeys \<and> d \<noteq> 0x20
     \<and> (\<forall>key \<in> set singleCharKeys. d \<notin> set (lookup ARABIC_CHAT_MAP key))"
  unfolding singleCharKeys_eq by (auto simp: lookup_table)

section \<open>Text that no stage changes\<close>

lemma Arabic_ge: "Arabic c \<Longrightarrow> 0x0600 \<le> c"
  unfolding Arabic_def by unat_arith

lemma Arabic_not_WhiteSpace: "Arabic c \<Longrightarrow> \<not> WhiteSpace c"
  unfolding Arabic_def WhiteSpace_def by (simp add: word_le_nat_alt word_unat_eq_iff) linarith

lemma lower_unit_high: "0x0600 \<le> c \<Longrightarrow> lower_unit c = c"
  unfolding lower_unit_def by (simp add: word_le_nat_alt)

lemma lower_unit_space: "lower_unit 0x20 = 0x20"
  by (simp add: lower_unit_def)


lemma replaceAll_absent_head: "k \<notin> set t \<Longrightarrow> replaceAll (k # ks) rep t = t"
  by (induction t) auto

lemma substitute_unchanged:
  "\<forall>key \<in> set keys. key \<noteq> [] \<and> hd key \<notin> set t \<Longrightarrow> substitute keys t = t"
proof (induction keys)
  case Nil
  show ?case by (simp add: substitute_Nil)
next
  case (Cons key keys)
  then obtain k ks where "key = k # ks" and "k \<notin> set t"
    by (cases key) auto
  then show ?case
    using Cons by (simp add: substitute_Cons replaceAll_absent_head)
qed

lemma collapse_no_ws_run: "\<not> has_ws_run t \<Longrightarrow> collapse t = t"
  by (induction t rule: collapse.induct) auto

lemma dropWhile_hd: "xs \<noteq> [] \<Longrightarrow> \<not> P (hd xs) \<Longrightarrow> dropWhile P xs = xs"
  by (cases xs) auto

lemma trim_no_ws_ends:
  assumes "t \<noteq> []" and "\<not> WhiteSpace (hd t)" and "\<not> WhiteSpace (last t)"
  shows "trim t = t"
proof -
  have 1: "dropWhile WhiteSpace t = t"
    using assms by (simp add: dropWhile_hd)
  have "rev t \<noteq> []" and "\<not> WhiteSpace (hd (rev t))"
    using assms by (simp_all add: hd_rev)
  then have "dropWhile WhiteSpace (rev t) = rev t"
    by (rule dropWhile_hd)
  with 1 show ?thesis
    by (simp add: trim_def)
qed

lemma key_heads_below:
  "key \<in> set multiCharKeys \<union> set singleCharKeys \<Longrightarrow> key \<noteq> [] \<and> hd key < 0x0600 \<and> hd key \<noteq> 0x20"
  unfolding multiCharKeys_eq singleCharKeys_eq by auto

section \<open>Lower-casing and letter case\<close>







section \<open>A white-space unit between two words\<close>















section \<open>The examples of the specification\<close>




text \<open>
  Claim C2: for every key of more than one character that contains a one-character
  key, the function applied to the key's own text returns the replacement of the long
  key, and not what the one-character replacements alone would leave; in particular
  "d7" gives zah (U+0638) and not "d" followed by hah (U+062D).
\<close>

theorem multi_character_key_wins:
  "(\<forall>key \<in> set multiCharKeys.
      (\<exists>d \<in> set singleCharKeys. set d \<subseteq> set key) \<longrightarrow>
        normalizeDarija (JString key) = Inr (lookup ARABIC_CHAT_MAP key)
        \<and> normalizeDarija (JString key) \<noteq> Inr (substitute singleCharKeys key))
   \<and> normalizeDarija (JString (ascii ''d7'')) = Inr [0x0638]
   \<and> normalizeDarija (JString (ascii ''d7'')) \<noteq> Inr (ascii ''d'' @ [0x062D])"
  by (simp add: run_normalizeDarija)

theorem multi_character_key_wins_witness:
  "ascii ''s5'' \<in> set multiCharKeys
   \<and> (\<exists>d \<in> set singleCharKeys. set d \<subseteq> set (ascii ''s5''))
   \<and> normalizeDarija (JString (ascii ''s5'')) = Inr [0x0635]
   \<and> substitute singleCharKeys (ascii ''s5'') = ascii ''s'' @ [0x062E]"
proof -
  have k: "ascii ''s5'' \<in> set multiCharKeys"
    by (simp add: multiCharKeys_eq ascii_def)
  have d: "\<exists>d \<in> set singleCharKeys. set d \<subseteq> set (ascii ''s5'')"
    by (simp add: singleCharKeys_eq ascii_def)
  from multi_character_key_wins k d
  have "normalizeDarija (JString (ascii ''s5'')) = Inr (lookup ARABIC_CHAT_MAP (ascii ''s5''))"
    by blast
  then have "normalizeDarija (JString (ascii ''s5'')) = Inr [0x0635]"
    by (simp add: lookup_table ascii_def)
  moreover have "substitute singleCharKeys (ascii ''s5'') = ascii ''s'' @ [0x062E]"
    by (simp add: singleCharKeys_eq substitute_Cons substitute_Nil lookup_table ascii_def)
  ultimately show ?thesis
    using k d by blast
qed

text \<open>
  Claim C3: for an argument that is not a string (undefined, null, a boolean, a number,
  an object) and for the empty string the function returns the empty string, and no
  error.
\<close>

theorem not_a_string_or_empty:
  "(\<forall>s. text \<noteq> JString s) \<or> text = JString [] \<Longrightarrow> normalizeDarija text = Inr []"
  by (cases "text") (auto simp: normalizeDarija_def)

theorem not_a_string_or_empty_witness:
  "(\<forall>s. JNull \<noteq> JString s) \<and> normalizeDarija JNull = Inr []
   \<and> normalizeDarija JUndefined = Inr []
   \<and> normalizeDarija (JNumber 42) = Inr []
   \<and> normalizeDarija JObject = Inr []
   \<and> normalizeDarija (JString []) = Inr []"
  using not_a_string_or_empty [of JNull] not_a_string_or_empty [of JUndefined]
    not_a_string_or_empty [of "JNumber 42"] not_a_string_or_empty [of JObject]
    not_a_string_or_empty [of "JString []"]
  by simp

text \<open>
  Claim C4: on "shkun ghadi ydir 2chghal d9i9a?" the result begins with (and, in fact,
  is) sheen (U+0634) "kun ghadi ydir " hamza (U+0621) "chghal " dad (U+0636) "i" qaf
  (U+0642) "a?": "sh", "2", "d9" and the remaining "9" are replaced, every other letter
  stays.
\<close>

theorem example2_output:
  "normalizeDarija (JString (ascii ''shkun ghadi ydir 2chghal d9i9a?'')) =
     Inr ([0x0634] @ ascii ''kun ghadi ydir '' @ [0x0621] @ ascii ''chghal '' @ [0x0636]
          @ ascii ''i'' @ [0x0642] @ ascii ''a?'')"
  by (simp add: run_normalizeDarija)

theorem example2_output_witness:
  "\<exists>r. normalizeDarija (JString (ascii ''shkun ghadi ydir 2chghal d9i9a?'')) = Inr r
       \<and> prefix ([0x0634] @ ascii ''kun ghadi ydir '' @ [0x0621] @ ascii ''chghal '' @ [0x0636]
                  @ ascii ''i'' @ [0x0642] @ ascii ''a?'') r"
  using example2_output by simp

section \<open>Totality\<close>

text \<open>
  Claim C7: on every string the function returns a string; no step raises, and every
  pattern and replacement text of the table is literal.
\<close>

theorem returns_a_string: "\<exists>r. normalizeDarija (JString s) = Inr r"
  by (simp add: normalizeDarija_JString)

theorem returns_a_string_witness:
  "(\<exists>r. normalizeDarija (JString []) = Inr r)
   \<and> (\<exists>r. normalizeDarija (JString (ascii ''d7'')) = Inr r)
   \<and> (\<exists>r. normalizeDarija (JString (ascii ''$1 (a.b)*'')) = Inr r)"
  using returns_a_string [of "[]"] returns_a_string [of "ascii ''d7''"]
    returns_a_string [of "ascii ''$1 (a.b)*''"]
  by blast

section \<open>White space in the result\<close>

text \<open>
  Claim C5: on every string, the result has no two adjacent white-space units, and it
  neither begins nor ends with white space.
\<close>

theorem result_white_space:
  "\<exists>r. normalizeDarija (JString s) = Inr r \<and> \<not> has_ws_run r
       \<and> (r = [] \<or> (\<not> WhiteSpace (hd r) \<and> \<not> WhiteSpace (last r)))"
  unfolding normalizeDarija_JString pipeline_def
  using no_ws_run_trim [OF no_ws_run_collapse] trim_ends by blast

theorem result_white_space_witness:
  "normalizeDarija (JString (ascii ''  a  b   c '')) = Inr (ascii ''a b c'')
   \<and> \<not> has_ws_run (ascii ''a b c'')
   \<and> \<not> WhiteSpace (hd (ascii ''a b c'')) \<and> \<not> WhiteSpace (last (ascii ''a b c''))"
proof -
  have e: "normalizeDarija (JString (ascii ''  a  b   c '')) = Inr (ascii ''a b c'')"
    by (simp add: run_normalizeDarija)
  have "ascii ''a b c'' \<noteq> []"
    by (simp add: ascii_def)
  then show ?thesis
    using result_white_space [of "ascii ''  a  b   c ''"] unfolding e by simp
qed

section \<open>The digits of the table\<close>

text \<open>
  Claim C9: on every string, the result contains none of the digits 2, 3, 5, 6, 7, 8
  and 9: each is replaced everywhere by the second loop, and no replacement text and no
  later stage brings one back.
\<close>

theorem no_table_digit_in_result:
  "\<exists>r. normalizeDarija (JString s) = Inr r
       \<and> (\<forall>d \<in> set [0x32, 0x33, 0x35, 0x36, 0x37, 0x38, 0x39]. d \<notin> set r)"
proof -
  let ?t = "substitute singleCharKeys (substitute multiCharKeys (map lower_unit s))"
  have "d \<notin> set (trim (collapse ?t))"
    if d: "d \<in> set [0x32, 0x33, 0x35, 0x36, 0x37, 0x38, 0x39]" for d
  proof -
    have "d \<notin> set ?t"
      using digit_keys [OF d] by (simp add: removed_by_substitute)
    moreover have "d \<noteq> 0x20"
      using digit_keys [OF d] by simp
    ultimately have "d \<notin> set (collapse ?t)"
      using set_collapse_subset [of ?t] by auto
    then show ?thesis
      using set_trim_subset [of "collapse ?t"] by auto
  qed
  then show ?thesis
    unfolding normalizeDarija_JString pipeline_def by blast
qed

theorem no_table_digit_in_result_witness:
  "normalizeDarija (JString (ascii ''0123456789'')) =
     Inr (ascii ''01'' @ [0x0621, 0x0639] @ ascii ''4'' @ [0x062E, 0x0637, 0x062D, 0x063A, 0x0642])
   \<and> 0x37 \<notin> set (ascii ''01'' @ [0x0621, 0x0639] @ ascii ''4''
                    @ [0x062E, 0x0637, 0x062D, 0x063A, 0x0642 :: 16 word])"
proof -
  have e: "normalizeDarija (JString (ascii ''0123456789'')) =
     Inr (ascii ''01'' @ [0x0621, 0x0639] @ ascii ''4'' @ [0x062E, 0x0637, 0x062D, 0x063A, 0x0642])"
    by (simp add: run_normalizeDarija)
  from no_table_digit_in_result [of "ascii ''0123456789''"]
  have "\<forall>d \<in> set [0x32, 0x33, 0x35, 0x36, 0x37, 0x38, 0x39].
          d \<notin> set (ascii ''01'' @ [0x0621, 0x0639] @ ascii ''4''
                    @ [0x062E, 0x0637, 0x062D, 0x063A, 0x0642 :: 16 word])"
    unfolding e by simp
  then have "0x37 \<notin> set (ascii ''01'' @ [0x0621, 0x0639] @ ascii ''4''
                    @ [0x062E, 0x0637, 0x062D, 0x063A, 0x0642 :: 16 word])"
    by simp
  with e show ?thesis
    by blast
qed

section \<open>Letter case\<close>



section \<open>Text already in Arabic script\<close>

text \<open>
  Claim C8: a string made of Arabic-script code units and spaces only, with no two
  spaces in a row and no space at either end, is returned unchanged.
\<close>

theorem arabic_text_unchanged:
  assumes units: "\<forall>c \<in> set s. Arabic c \<or> c = 0x20"
    and single: "\<not> has_ws_run s"
    and ends: "s = [] \<or> (hd s \<noteq> 0x20 \<and> last s \<noteq> 0x20)"
  shows "normalizeDarija (JString s) = Inr s"
proof (cases "s = []")
  case True
  then show ?thesis
    by (simp add: normalizeDarija_JString pipeline_Nil)
next
  case False
  have "lower_unit c = c" if "c \<in> set s" for c
    using units that Arabic_ge [of c] lower_unit_high [of c] lower_unit_space by auto
  then have low: "map lower_unit s = s"
    by (rule map_idI)
  have no_head: "key \<noteq> [] \<and> hd key \<notin> set s"
    if "key \<in> set multiCharKeys \<union> set singleCharKeys" for key
  proof -
    have "hd key < 0x0600" "hd key \<noteq> 0x20" "key \<noteq> []"
      using key_heads_below [OF that] by simp_all
    then show ?thesis
      using units Arabic_ge [of "hd key"] by auto
  qed
  have multi: "substitute multiCharKeys s = s"
    using no_head by (simp add: substitute_unchanged)
  have single': "substitute singleCharKeys s = s"
    using no_head by (simp add: substitute_unchanged)
  have "hd s \<in> set s" "last s \<in> set s"
    using False by simp_all
  then have "\<not> WhiteSpace (hd s)" "\<not> WhiteSpace (last s)"
    using units ends False Arabic_not_WhiteSpace by blast+
  then have "trim s = s"
    using False by (simp add: trim_no_ws_ends)
  then show ?thesis
    by (simp add: normalizeDarija_JString pipeline_def low multi single' collapse_no_ws_run single)
qed

theorem arabic_text_unchanged_witness:
  "list_all (\<lambda>c. Arabic c \<or> c = 0x20) [0x0639, 0x0646, 0x062F, 0x064A, 0x20, 0x062D, 0x0628]
   \<and> \<not> has_ws_run [0x0639, 0x0646, 0x062F, 0x064A, 0x20, 0x062D, 0x0628]
   \<and> normalizeDarija (JString [0x0639, 0x0646, 0x062F, 0x064A, 0x20, 0x062D, 0x0628]) =
       Inr [0x0639, 0x0646, 0x062F, 0x064A, 0x20, 0x062D, 0x0628]"
proof -
  have u: "\<forall>c \<in> set [0x0639, 0x0646, 0x062F, 0x064A, 0x20, 0x062D, 0x0628]. Arabic c \<or> c = 0x20"
    by (simp add: Arabic_def)
  have r: "\<not> has_ws_run [0x0639, 0x0646, 0x062F, 0x064A, 0x20, 0x062D, 0x0628]"
    by (simp add: WhiteSpace_def)
  have "normalizeDarija (JString [0x0639, 0x0646, 0x062F, 0x064A, 0x20, 0x062D, 0x0628]) =
       Inr [0x0639, 0x0646, 0x062F, 0x064A, 0x20, 0x062D, 0x0628]"
    by (rule arabic_text_unchanged [OF u r]) simp
  moreover have "list_all (\<lambda>c. Arabic c \<or> c = 0x20)
      [0x0639, 0x0646, 0x062F, 0x064A, 0x20, 0x062D, 0x0628]"
    using u by (simp only: list_all_iff)
  ultimately show ?thesis
    using r by blast
qed

section \<open>A single white-space unit inside the text\<close>



end
